theory Spec2Isabelle
  imports Main "HOL-Library.Sublist"
begin

section \<open>The streaming result consumer of the leads page\<close>

text \<open>
  The development embeds the component \<open>LeadsPage\<close> (second document of
  \<open>frontend/app/composables/use-canvas-animation.ts\<close>): the helper
  \<open>extractTextContent\<close>, the three named-event listeners registered on the
  \<open>EventSource\<close>, its \<open>onerror\<close> handler, and the effect that creates them.
  Each handler is a function from the component state to the component state;
  every \<open>throw\<close> of the JavaScript is a branch of the model.
\<close>

subsection \<open>Values produced by \<open>JSON.parse\<close>\<close>

text \<open>
  A parsed payload is a JSON value. A number is kept as the two things the page
  can observe of it: whether it is zero (a number is falsy exactly then), and
  the text that its conversion to a string gives. An object is the list of its
  members in the order of the text; where a key is repeated, \<open>JSON.parse\<close>
  keeps the last value.
\<close>

datatype json =
    JNull
  | JBool bool
  | JNum bool string
  | JStr string
  | JArr "json list"
  | JObj "(string \<times> json) list"

text \<open>A JavaScript value read from a payload: \<open>None\<close> is \<open>undefined\<close>.\<close>

type_synonym jsval = "json option"

datatype exn = TypeError | SyntaxError

text \<open>
  Property read \<open>x.k\<close> on a value that is not \<open>null\<close>. Only an object has own
  properties among the names the page reads (\<open>result\<close>, \<open>status\<close>, \<open>message\<close>,
  \<open>content\<close>, \<open>text\<close>, \<open>file\<close>, \<open>mime_type\<close>, \<open>filename\<close>, \<open>error\<close>); on a
  string, number, boolean or array these names are \<open>undefined\<close>.
\<close>

fun member_js :: "json \<Rightarrow> string \<Rightarrow> jsval" where
  "member_js (JObj kvs) k = map_of (rev kvs) k"
| "member_js _ k = None"

text \<open>\<open>x.k\<close>: a \<open>TypeError\<close> when \<open>x\<close> is \<open>null\<close>.\<close>

definition dot :: "json \<Rightarrow> string \<Rightarrow> exn + jsval" where
  "dot x k = (if x = JNull then Inl TypeError else Inr (member_js x k))"

text \<open>\<open>x?.k\<close>: \<open>undefined\<close> when \<open>x\<close> is \<open>null\<close> or \<open>undefined\<close>.\<close>

definition opt_dot :: "jsval \<Rightarrow> string \<Rightarrow> jsval" where
  "opt_dot x k = (case x of None \<Rightarrow> None | Some v \<Rightarrow> (if v = JNull then None else member_js v k))"

text \<open>Truthiness, as \<open>if (v)\<close>, \<open>!v\<close>, \<open>a || b\<close> and the callback of \<open>filter\<close> test it.\<close>

fun truthy :: "jsval \<Rightarrow> bool" where
  "truthy None = False"
| "truthy (Some JNull) = False"
| "truthy (Some (JBool b)) = b"
| "truthy (Some (JNum zero shown)) = (\<not> zero)"
| "truthy (Some (JStr s)) = (s \<noteq> [])"
| "truthy (Some (JArr xs)) = True"
| "truthy (Some (JObj kvs)) = True"

text \<open>\<open>a || b\<close> where \<open>b\<close> is a string literal.\<close>

definition or_else :: "jsval \<Rightarrow> string \<Rightarrow> json" where
  "or_else a b = (case a of None \<Rightarrow> JStr b | Some v \<Rightarrow> (if truthy (Some v) then v else JStr b))"

subsection \<open>Conversion to string\<close>

fun intercalate :: "string \<Rightarrow> string list \<Rightarrow> string" where
  "intercalate sep [] = []"
| "intercalate sep [x] = x"
| "intercalate sep (x # y # ys) = x @ sep @ intercalate sep (y # ys)"

text \<open>The results of a sequence of computations, up to the first that throws.\<close>

fun collect :: "(exn + 'a) list \<Rightarrow> exn + 'a list" where
  "collect [] = Inr []"
| "collect (x # xs) =
     (case x of
        Inl e \<Rightarrow> Inl e
      | Inr v \<Rightarrow> (case collect xs of Inl e \<Rightarrow> Inl e | Inr vs \<Rightarrow> Inr (v # vs)))"

text \<open>
  The conversion that a template literal and \<open>Array.prototype.join\<close> apply to
  a value. An array prints its elements separated by commas, with \<open>null\<close>
  printed as the empty string. An object prints as \<open>[object Object]\<close> through
  the inherited \<open>toString\<close>; an own property \<open>toString\<close> hides the inherited
  one, is not a function (no parsed value is), and the conversion throws.
\<close>

fun ToString :: "json \<Rightarrow> exn + string" where
  "ToString JNull = Inr ''null''"
| "ToString (JBool b) = Inr (if b then ''true'' else ''false'')"
| "ToString (JNum zero shown) = Inr shown"
| "ToString (JStr s) = Inr s"
| "ToString (JArr xs) =
     (case collect (map (\<lambda>x. if x = JNull then Inr [] else ToString x) xs) of
        Inl e \<Rightarrow> Inl e
      | Inr ss \<Rightarrow> Inr (intercalate '','' ss))"
| "ToString (JObj kvs) =
     (if map_of (rev kvs) ''toString'' \<noteq> None then Inl TypeError else Inr ''[object Object]'')"

text \<open>\<open>xs.join(sep)\<close>: \<open>undefined\<close> and \<open>null\<close> elements print as the empty string.\<close>

definition join :: "string \<Rightarrow> jsval list \<Rightarrow> exn + string" where
  "join sep xs =
     (case collect (map (\<lambda>x. case x of None \<Rightarrow> Inr [] | Some v \<Rightarrow> (if v = JNull then Inr [] else ToString v)) xs) of
        Inl e \<Rightarrow> Inl e
      | Inr ss \<Rightarrow> Inr (intercalate sep ss))"

subsection \<open>\<open>extractTextContent\<close>\<close>

text \<open>\<open>data.result?.status?.message?.content\<close>\<close>

definition content_of :: "json \<Rightarrow> exn + jsval" where
  "content_of data =
     (case dot data ''result'' of
        Inl e \<Rightarrow> Inl e
      | Inr r \<Rightarrow> Inr (opt_dot (opt_dot (opt_dot r ''status'') ''message'') ''content''))"

text \<open>
  \<open>parts.filter((part) => part.k)\<close>: the callback reads a property of every
  element in turn, so a \<open>null\<close> element throws.
\<close>

primrec filter_parts :: "string \<Rightarrow> json list \<Rightarrow> exn + json list" where
  "filter_parts k [] = Inr []"
| "filter_parts k (p # ps) =
     (case dot p k of
        Inl e \<Rightarrow> Inl e
      | Inr v \<Rightarrow>
          (case filter_parts k ps of
             Inl e \<Rightarrow> Inl e
           | Inr r \<Rightarrow> Inr (if truthy v then p # r else r)))"

definition blank_line :: string where
  "blank_line = [CHR 0x0A, CHR 0x0A]"

text \<open>
  The result is \<open>string | null\<close>; \<open>None\<close> is \<open>null\<close>. Both early returns and
  the \<open>catch\<close> give \<open>null\<close>.
\<close>

definition extractTextContent :: "json \<Rightarrow> string option" where
  "extractTextContent data =
     (case content_of data of
        Inl e \<Rightarrow> None
      | Inr content \<Rightarrow>
          (case content of
             Some (JArr parts) \<Rightarrow>
               (case filter_parts ''text'' parts of
                  Inl e \<Rightarrow> None
                | Inr kept \<Rightarrow>
                    (case join blank_line (map (\<lambda>part. member_js part ''text'') kept) of
                       Inl e \<Rightarrow> None
                     | Inr joined \<Rightarrow> Some joined))
           | _ \<Rightarrow> None))"

subsection \<open>Component state\<close>

datatype message_type = Status | Final | Error

text \<open>
  The interface \<open>AgentMessage\<close>. The fields \<open>id\<close> and \<open>type\<close> carry a suffix;
  \<open>timestamp\<close> is the \<open>Date\<close> as milliseconds.
\<close>

record AgentMessage =
  id_msg :: string
  content :: string
  timestamp :: nat
  type_msg :: message_type

text \<open>The \<open>EventSource\<close> held by \<open>eventSourceRef\<close>: none yet, connecting or open, closed.\<close>

datatype source_state = NoSource | Open | Closed

text \<open>
  The state of \<open>LeadsPage\<close>.
  \<^item> \<open>uuid\<close>: the route parameter \<open>params.uuid\<close> of the current render, which
    the component calls \<open>taskId\<close> (the empty string stands for an absent one).
  \<^item> \<open>messages\<close>, \<open>isComplete\<close>, \<open>error\<close>: the state cells (\<open>useState\<close>);
    \<open>error\<close> holds whatever value \<open>setError\<close> was given, \<open>None\<close> is \<open>null\<close>.
  \<^item> \<open>eventSource\<close>: the event source that the effect created.
  \<^item> \<open>isComplete_seen\<close>: the binding of the variable \<open>isComplete\<close> that the
    closure \<open>onerror\<close> refers to. It is the constant of the render in which the
    effect ran; the effect's dependency list is \<open>[taskId]\<close>, so later renders
    do not replace the handlers.
  \<^item> \<open>render_failed\<close>: an updater given to \<open>setMessages\<close> has thrown. React
    runs the updater when it renders, after the listener has returned, so the
    exception is not one of the listener.
\<close>

record LeadsPage =
  uuid :: string
  messages :: "AgentMessage list"
  isComplete :: bool
  error :: jsval
  eventSource :: source_state
  isComplete_seen :: bool
  render_failed :: bool

text \<open>
  What a handler takes from its environment: the \<open>k\<close>-th call of
  \<open>crypto.randomUUID()\<close> and of \<open>new Date()\<close> during one invocation.
\<close>

record env =
  randomUUID :: "nat \<Rightarrow> string"
  newDate :: "nat \<Rightarrow> nat"

text \<open>
  The field \<open>data\<close> of a delivered event, by what \<open>JSON.parse\<close> does with it:
  absent or the empty string, a non-empty text that \<open>JSON.parse\<close> rejects, or
  a text that parses to the given value.
\<close>

datatype sse_data = NoData | Garbled | Parsed json

text \<open>\<open>JSON.parse(event.data)\<close>; \<open>None\<close> is the thrown \<open>SyntaxError\<close>.\<close>

fun JSON_parse :: "sse_data \<Rightarrow> json option" where
  "JSON_parse NoData = None"
| "JSON_parse Garbled = None"
| "JSON_parse (Parsed j) = Some j"

text \<open>\<open>setMessages((prev) => [...prev, m])\<close>, where building \<open>m\<close> cannot throw.\<close>

definition setMessages_append :: "AgentMessage \<Rightarrow> LeadsPage \<Rightarrow> LeadsPage" where
  "setMessages_append m s = s\<lparr>messages := messages s @ [m]\<rparr>"

text \<open>
  \<open>setMessages((prev) => [...prev, m])\<close>, where \<open>m\<close> holds a template literal.
  The call itself returns; the literal is evaluated when React runs the
  updater. If its conversion to a string throws there, the list is not extended
  and the render fails.
\<close>

definition setMessages_with :: "exn + AgentMessage \<Rightarrow> LeadsPage \<Rightarrow> LeadsPage" where
  "setMessages_with r s =
     (case r of
        Inl ex \<Rightarrow> s\<lparr>render_failed := True\<rparr>
      | Inr m \<Rightarrow> s\<lparr>messages := messages s @ [m]\<rparr>)"

text \<open>\<open>if (content)\<close> on a \<open>string | null\<close>.\<close>

fun truthy_content :: "string option \<Rightarrow> bool" where
  "truthy_content None = False"
| "truthy_content (Some c) = (c \<noteq> [])"

text \<open>The two symbols of the message texts, in UTF-8: U+2705 and U+274C.\<close>

definition check_mark :: string where
  "check_mark = [CHR 0xE2, CHR 0x9C, CHR 0x85]"

definition cross_mark :: string where
  "cross_mark = [CHR 0xE2, CHR 0x9D, CHR 0x8C]"

subsection \<open>The listener of \<open>status_update\<close>\<close>

definition on_status_update :: "env \<Rightarrow> sse_data \<Rightarrow> LeadsPage \<Rightarrow> LeadsPage" where
  "on_status_update e d s =
     (case JSON_parse d of
        None \<Rightarrow> s
      | Some data \<Rightarrow>
          (case extractTextContent data of
             None \<Rightarrow> s
           | Some c \<Rightarrow>
               (if c \<noteq> [] then
                  setMessages_append
                    \<lparr>id_msg = randomUUID e 0, content = c, timestamp = newDate e 0, type_msg = Status\<rparr> s
                else s)))"

subsection \<open>The listener of \<open>final_response\<close>\<close>

text \<open>
  \<open>data.result?.status?.message?.content?.filter((part) => part.file)\<close>: the
  result is \<open>undefined\<close> (\<open>None\<close>) when the content is \<open>undefined\<close> or \<open>null\<close>;
  a content that is neither that nor an array has no function \<open>filter\<close>, and
  the call throws.
\<close>

definition artifacts_of :: "json \<Rightarrow> exn + json list option" where
  "artifacts_of data =
     (case content_of data of
        Inl e \<Rightarrow> Inl e
      | Inr c \<Rightarrow>
          (case c of
             None \<Rightarrow> Inr None
           | Some JNull \<Rightarrow> Inr None
           | Some (JArr parts) \<Rightarrow>
               (case filter_parts ''file'' parts of Inl e \<Rightarrow> Inl e | Inr kept \<Rightarrow> Inr (Some kept))
           | Some _ \<Rightarrow> Inl TypeError))"

text \<open>
  \<open>a.file?.mime_type === 'application/json'\<close>, on an element of \<open>artifacts\<close>
  (none of them is \<open>null\<close>: the filter has read a property of each).
\<close>

definition is_json_artifact :: "json \<Rightarrow> bool" where
  "is_json_artifact a = (opt_dot (member_js a ''file'') ''mime_type'' = Some (JStr ''application/json''))"

text \<open>\<open>jsonArtifact.file?.filename || 'leads artifact'\<close>\<close>

definition artifact_name :: "json \<Rightarrow> json" where
  "artifact_name a = or_else (opt_dot (member_js a ''file'') ''filename'') ''leads artifact''"

text \<open>The template literal of the announcement.\<close>

definition announcement :: "json \<Rightarrow> exn + string" where
  "announcement a =
     (case ToString (artifact_name a) of
        Inl e \<Rightarrow> Inl e
      | Inr name \<Rightarrow> Inr (check_mark @ '' Lead generation complete! Generated '' @ name @ ''.''))"

text \<open>
  The block \<open>if (artifacts && artifacts.length > 0) { ... }\<close>, with \<open>k\<close> earlier
  calls of \<open>crypto.randomUUID()\<close>. The announcement is built inside the updater.
\<close>

definition announce :: "env \<Rightarrow> nat \<Rightarrow> json list option \<Rightarrow> LeadsPage \<Rightarrow> LeadsPage" where
  "announce e k artifacts s =
     (case artifacts of
        None \<Rightarrow> s
      | Some arts \<Rightarrow>
          (if length arts > 0 then
             (case find is_json_artifact arts of
                None \<Rightarrow> s
              | Some jsonArtifact \<Rightarrow>
                  setMessages_with
                    (case announcement jsonArtifact of
                       Inl ex \<Rightarrow> Inl ex
                     | Inr text \<Rightarrow>
                         Inr \<lparr>id_msg = randomUUID e k, content = text, timestamp = newDate e k,
                              type_msg = Final\<rparr>)
                    s)
           else s))"

text \<open>
  An exception leaves the \<open>try\<close> block with the state updates made so far, and
  the \<open>catch\<close> only logs it. \<open>setIsComplete(true)\<close> is the last statement of
  the block.
\<close>

definition on_final_response :: "env \<Rightarrow> sse_data \<Rightarrow> LeadsPage \<Rightarrow> LeadsPage" where
  "on_final_response e d s =
     (case JSON_parse d of
        None \<Rightarrow> s
      | Some data \<Rightarrow>
          (let c = extractTextContent data;
               s1 = (if truthy_content c then
                       setMessages_append
                         \<lparr>id_msg = randomUUID e 0, content = (case c of Some t \<Rightarrow> t | None \<Rightarrow> []),
                          timestamp = newDate e 0, type_msg = Final\<rparr> s
                     else s);
               k = (if truthy_content c then 1 else 0)
           in case artifacts_of data of
                Inl ex \<Rightarrow> s1
              | Inr artifacts \<Rightarrow> (announce e k artifacts s1)\<lparr>isComplete := True\<rparr>))"

subsection \<open>The listener of \<open>error\<close>\<close>

text \<open>
  \<open>data.error\<close> throws on \<open>null\<close>; the message of the entry is built inside
  the updater.
\<close>

definition on_error_event :: "env \<Rightarrow> sse_data \<Rightarrow> LeadsPage \<Rightarrow> LeadsPage" where
  "on_error_event e d s =
     (if d = NoData then s
      else
        (case JSON_parse d of
           None \<Rightarrow> s
         | Some data \<Rightarrow>
             (case dot data ''error'' of
                Inl ex \<Rightarrow> s
              | Inr v \<Rightarrow>
                  (let errorMsg = or_else v ''An error occurred'';
                       s1 = s\<lparr>error := Some errorMsg\<rparr>
                   in setMessages_with
                        (case ToString errorMsg of
                           Inl ex \<Rightarrow> Inl ex
                         | Inr shown \<Rightarrow>
                             Inr \<lparr>id_msg = randomUUID e 0, content = cross_mark @ '' Error: '' @ shown,
                                  timestamp = newDate e 0, type_msg = Error\<rparr>)
                        s1))))"

subsection \<open>The handler \<open>onerror\<close>\<close>

text \<open>
  The guard reads the variable \<open>isComplete\<close> of the closure, not the state cell.
\<close>

definition onerror :: "LeadsPage \<Rightarrow> LeadsPage" where
  "onerror s =
     (let s1 = (if \<not> isComplete_seen s then s\<lparr>error := Some (JStr ''Connection to server lost'')\<rparr> else s)
      in s1\<lparr>eventSource := Closed\<rparr>)"

subsection \<open>The effect\<close>

text \<open>
  The effect returns at once on a falsy \<open>taskId\<close>. Otherwise it creates the
  event source and the handlers, whose closure sees the \<open>isComplete\<close> of the
  current render. Its cleanup closes the source it created.
\<close>

definition effect :: "LeadsPage \<Rightarrow> LeadsPage" where
  "effect s =
     (if uuid s = [] then s else s\<lparr>eventSource := Open, isComplete_seen := isComplete s\<rparr>)"

definition cleanup :: "LeadsPage \<Rightarrow> LeadsPage" where
  "cleanup s = (if eventSource s = NoSource then s else s\<lparr>eventSource := Closed\<rparr>)"

text \<open>The first render (\<open>useState\<close> initial values) followed by the effect.\<close>

definition mount :: "string \<Rightarrow> LeadsPage" where
  "mount t =
     effect
       \<lparr>uuid = t, messages = [], isComplete = False, error = None, eventSource = NoSource,
        isComplete_seen = False, render_failed = False\<rparr>"

text \<open>
  A render with another \<open>taskId\<close>: the cleanup of the last effect, then the
  effect again. With the same \<open>taskId\<close> the effect does not run.
\<close>

definition rerender :: "string \<Rightarrow> LeadsPage \<Rightarrow> LeadsPage" where
  "rerender t s = (if t = uuid s then s else effect ((cleanup s)\<lparr>uuid := t\<rparr>))"

subsection \<open>Runs\<close>

text \<open>
  The event source hands an event to the handlers registered for its type, in
  the order of their registration. For the type \<open>error\<close> these are the listener
  added with \<open>addEventListener\<close> and then the handler \<open>onerror\<close>, whether the
  event is a message of the gateway named \<open>error\<close> or the data-less event of a
  failed connection.
\<close>

definition dispatch_error :: "env \<Rightarrow> sse_data \<Rightarrow> LeadsPage \<Rightarrow> LeadsPage" where
  "dispatch_error e d s = onerror (on_error_event e d s)"

datatype event =
    StatusUpdate sse_data
  | FinalResponse sse_data
  | ErrorEvent sse_data
  | TransportError
  | TaskIdChanged string

fun step :: "env \<Rightarrow> event \<Rightarrow> LeadsPage \<Rightarrow> LeadsPage" where
  "step e (StatusUpdate d) s = on_status_update e d s"
| "step e (FinalResponse d) s = on_final_response e d s"
| "step e (ErrorEvent d) s = dispatch_error e d s"
| "step e TransportError s = dispatch_error e NoData s"
| "step e (TaskIdChanged t) s = rerender t s"

fun run :: "(env \<times> event) list \<Rightarrow> LeadsPage \<Rightarrow> LeadsPage" where
  "run [] s = s"
| "run ((e, ev) # rest) s = run rest (step e ev s)"

subsection \<open>Notions used in the statements\<close>

text \<open>A value that the conversion to string accepts.\<close>

definition printable :: "json \<Rightarrow> bool" where
  "printable v = (case ToString v of Inl ex \<Rightarrow> False | Inr shown \<Rightarrow> True)"

text \<open>
  The entries a listener appends, read off its code: the entry made from the
  extracted text (none when the text is \<open>null\<close> or empty), and the announcement
  of the first JSON artifact (none when there is no such artifact, when the
  lookup of the artifacts throws, or when the text of the announcement cannot
  be built). \<open>k\<close> is the number of earlier calls of \<open>crypto.randomUUID()\<close> in
  the same invocation.
\<close>

definition text_entries :: "env \<Rightarrow> message_type \<Rightarrow> json \<Rightarrow> AgentMessage list" where
  "text_entries e t data =
     (case extractTextContent data of
        None \<Rightarrow> []
      | Some c \<Rightarrow>
          (if c \<noteq> [] then [\<lparr>id_msg = randomUUID e 0, content = c, timestamp = newDate e 0, type_msg = t\<rparr>]
           else []))"

definition artifact_entries :: "env \<Rightarrow> nat \<Rightarrow> json \<Rightarrow> AgentMessage list" where
  "artifact_entries e k data =
     (case artifacts_of data of
        Inl ex \<Rightarrow> []
      | Inr None \<Rightarrow> []
      | Inr (Some arts) \<Rightarrow>
          (case find is_json_artifact arts of
             None \<Rightarrow> []
           | Some a \<Rightarrow>
               (case announcement a of
                  Inl ex \<Rightarrow> []
                | Inr text \<Rightarrow>
                    [\<lparr>id_msg = randomUUID e k, content = text, timestamp = newDate e k, type_msg = Final\<rparr>])))"

text \<open>
  The content list of a payload, when it is a list and none of its entries is
  \<open>null\<close>.
\<close>

definition content_parts :: "json \<Rightarrow> json list option" where
  "content_parts data =
     (case content_of data of
        Inr (Some (JArr parts)) \<Rightarrow> (if JNull \<in> set parts then None else Some parts)
      | _ \<Rightarrow> None)"

text \<open>
  A payload that the listener of \<open>final_response\<close> handles without an exception:
  it is not \<open>null\<close>, and its content is absent, \<open>null\<close>, or a list with no
  \<open>null\<close> entry.
\<close>

definition processable :: "json \<Rightarrow> bool" where
  "processable data =
     (case content_of data of
        Inl ex \<Rightarrow> False
      | Inr None \<Rightarrow> True
      | Inr (Some JNull) \<Rightarrow> True
      | Inr (Some (JArr parts)) \<Rightarrow> JNull \<notin> set parts
      | Inr (Some _) \<Rightarrow> False)"

text \<open>
  A well-formed payload with a non-empty text fragment: the content is a list
  of entries, none of them \<open>null\<close>; every \<open>text\<close> can be converted to a string
  (as every string can); and one entry has a truthy \<open>text\<close> whose string form
  is not empty (for a string: a non-empty string).
\<close>

definition has_text_fragment :: "json \<Rightarrow> bool" where
  "has_text_fragment data =
     (case content_of data of
        Inr (Some (JArr parts)) \<Rightarrow>
          list_all (\<lambda>p. p \<noteq> JNull \<and> (case member_js p ''text'' of None \<Rightarrow> True | Some v \<Rightarrow> printable v)) parts
          \<and> list_ex (\<lambda>p. case member_js p ''text'' of
                             None \<Rightarrow> False
                           | Some v \<Rightarrow> truthy (Some v) \<and> (case ToString v of Inl ex \<Rightarrow> False | Inr t \<Rightarrow> t \<noteq> []))
               parts
      | _ \<Rightarrow> False)"

text \<open>A sequence of \<open>status_update\<close> events, and the entry each of them produces.\<close>

definition status_events :: "(env \<times> json) list \<Rightarrow> (env \<times> event) list" where
  "status_events jobs = map (\<lambda>(e, data). (e, StatusUpdate (Parsed data))) jobs"

definition status_entry :: "env \<times> json \<Rightarrow> AgentMessage" where
  "status_entry j =
     \<lparr>id_msg = randomUUID (fst j) 0,
      content = (case extractTextContent (snd j) of Some c \<Rightarrow> c | None \<Rightarrow> []),
      timestamp = newDate (fst j) 0, type_msg = Status\<rparr>"

text \<open>The two callbacks of \<open>extractTextContent\<close>, by name.\<close>

definition text_of :: "json \<Rightarrow> jsval" where
  "text_of part = member_js part ''text''"

definition has_truthy_text :: "json \<Rightarrow> bool" where
  "has_truthy_text part = truthy (member_js part ''text'')"

text \<open>
  The extraction as the specification words it: the entries on which a \<open>text\<close>
  field is present, joined with a blank line.
\<close>

definition text_field_present :: "json \<Rightarrow> bool" where
  "text_field_present part = (member_js part ''text'' \<noteq> None)"

definition claimed_text :: "json list \<Rightarrow> exn + string" where
  "claimed_text parts = join blank_line (map text_of (filter text_field_present parts))"

text \<open>The announcement that names a given file.\<close>

definition announcement_of :: "string \<Rightarrow> string" where
  "announcement_of name = check_mark @ '' Lead generation complete! Generated '' @ name @ ''.''"

text \<open>
  The closure never sees a completion that the state cell does not have.
\<close>

definition flag_consistent :: "LeadsPage \<Rightarrow> bool" where
  "flag_consistent s = (isComplete s \<or> \<not> isComplete_seen s)"

text \<open>Concrete inputs: an environment, the envelope around a content list, two kinds of entry.\<close>

definition sample_env :: env where
  "sample_env = \<lparr>randomUUID = (\<lambda>k. ''uuid-'' @ replicate k (CHR ''i'')), newDate = (\<lambda>k. 1000 + k)\<rparr>"

definition envelope :: "json list \<Rightarrow> json" where
  "envelope parts =
     JObj [(''result'', JObj [(''status'', JObj [(''message'', JObj [(''content'', JArr parts)])])])]"

definition text_part :: "string \<Rightarrow> json" where
  "text_part t = JObj [(''text'', JStr t)]"

definition file_part :: "string \<Rightarrow> string \<Rightarrow> json" where
  "file_part name mime = JObj [(''file'', JObj [(''filename'', JStr name), (''mime_type'', JStr mime)])]"

section \<open>Properties of the helpers\<close>

lemma filter_parts_eq:
  "filter_parts k ps =
     (if JNull \<in> set ps then Inl TypeError else Inr (filter (\<lambda>p. truthy (member_js p k)) ps))"
  by (induction ps) (auto simp: dot_def)

lemma collect_defined:
  "(\<And>x. x \<in> set xs \<Longrightarrow> \<exists>y. f x = Inr y) \<Longrightarrow> \<exists>ys. collect (map f xs) = Inr ys"
proof (induction xs)
  case Nil
  then show ?case by simp
next
  case (Cons x xs)
  from Cons.prems[of x] obtain y where y: "f x = Inr y" by auto
  from Cons.IH Cons.prems obtain ys where "collect (map f xs) = Inr ys" by auto
  with y show ?case by simp
qed

lemma collect_member:
  "collect (map f xs) = Inr ys \<Longrightarrow> x \<in> set xs \<Longrightarrow> f x = Inr y \<Longrightarrow> y \<in> set ys"
  by (induction xs arbitrary: ys) (auto split: sum.splits)

lemma printableD: "printable v \<Longrightarrow> \<exists>shown. ToString v = Inr shown"
  by (cases "ToString v") (simp_all add: printable_def)

lemma intercalate_nonempty:
  "x \<in> set xs \<Longrightarrow> x \<noteq> [] \<Longrightarrow> intercalate sep xs \<noteq> []"
  by (induction sep xs rule: intercalate.induct) auto

lemma truthy_not_null: "truthy (Some v) \<Longrightarrow> v \<noteq> JNull"
  by auto

lemma content_of_envelope: "content_of (envelope parts) = Inr (Some (JArr parts))"
  by (simp add: content_of_def envelope_def dot_def opt_dot_def)

lemma content_partsD:
  assumes "content_parts data = Some parts"
  shows "content_of data = Inr (Some (JArr parts))" and "JNull \<notin> set parts"
proof -
  have "content_of data = Inr (Some (JArr parts)) \<and> JNull \<notin> set parts"
  proof (cases "content_of data")
    case (Inl ex)
    with assms show ?thesis by (simp add: content_parts_def)
  next
    case (Inr v)
    show ?thesis
    proof (cases v)
      case None
      with Inr assms show ?thesis by (simp add: content_parts_def)
    next
      case (Some j)
      with Inr assms show ?thesis by (cases j) (simp_all add: content_parts_def split: if_splits)
    qed
  qed
  then show "content_of data = Inr (Some (JArr parts))" and "JNull \<notin> set parts" by simp_all
qed

lemma extract_by_parts:
  "extractTextContent data
     = (case content_parts data of
          None \<Rightarrow> None
        | Some parts \<Rightarrow>
            (case join blank_line (map text_of (filter has_truthy_text parts)) of
               Inl ex \<Rightarrow> None
             | Inr joined \<Rightarrow> Some joined))"
proof (cases "content_of data")
  case (Inl ex)
  then show ?thesis by (simp add: extractTextContent_def content_parts_def)
next
  case (Inr v)
  show ?thesis
  proof (cases v)
    case None
    with Inr show ?thesis by (simp add: extractTextContent_def content_parts_def)
  next
    case (Some j)
    have eq: "(\<lambda>part. member_js part ''text'') = text_of" "(\<lambda>p. truthy (member_js p ''text'')) = has_truthy_text"
      by (simp_all add: fun_eq_iff text_of_def has_truthy_text_def)
    from Inr Some show ?thesis
      by (cases j) (simp_all add: extractTextContent_def content_parts_def filter_parts_eq eq)
  qed
qed

lemma has_text_fragmentD:
  assumes "has_text_fragment data"
  obtains parts where "content_of data = Inr (Some (JArr parts))"
    and "list_all (\<lambda>p. p \<noteq> JNull \<and> (case member_js p ''text'' of None \<Rightarrow> True | Some v \<Rightarrow> printable v)) parts"
    and "list_ex (\<lambda>p. case member_js p ''text'' of
                        None \<Rightarrow> False
                      | Some v \<Rightarrow> truthy (Some v) \<and> (case ToString v of Inl ex \<Rightarrow> False | Inr t \<Rightarrow> t \<noteq> []))
           parts"
proof (cases "content_of data")
  case (Inl ex)
  with assms show ?thesis by (simp add: has_text_fragment_def)
next
  case (Inr v)
  show ?thesis
  proof (cases v)
    case None
    with Inr assms show ?thesis by (simp add: has_text_fragment_def)
  next
    case (Some j)
    with Inr assms that show ?thesis by (cases j) (simp_all add: has_text_fragment_def)
  qed
qed

lemma text_fragmentD:
  assumes "case member_js p ''text'' of
             None \<Rightarrow> False
           | Some v \<Rightarrow> truthy (Some v) \<and> (case ToString v of Inl ex \<Rightarrow> False | Inr t \<Rightarrow> t \<noteq> [])"
  obtains v t where "member_js p ''text'' = Some v" and "truthy (Some v)"
    and "ToString v = Inr t" and "t \<noteq> []"
proof (cases "member_js p ''text''")
  case None
  with assms show ?thesis by simp
next
  case (Some v)
  with assms that show ?thesis by (cases "ToString v") simp_all
qed

lemma extract_nonempty:
  assumes "has_text_fragment data"
  shows "\<exists>c. extractTextContent data = Some c \<and> c \<noteq> []"
proof -
  from assms obtain parts where c: "content_of data = Inr (Some (JArr parts))"
    and ok: "list_all (\<lambda>p. p \<noteq> JNull \<and> (case member_js p ''text'' of None \<Rightarrow> True | Some v \<Rightarrow> printable v)) parts"
    and ex: "list_ex (\<lambda>p. case member_js p ''text'' of
                            None \<Rightarrow> False
                          | Some v \<Rightarrow> truthy (Some v) \<and> (case ToString v of Inl ex \<Rightarrow> False | Inr t \<Rightarrow> t \<noteq> []))
               parts"
    by (rule has_text_fragmentD)
  from ok have nn: "JNull \<notin> set parts" by (auto simp: list_all_iff)
  from ex obtain p where p: "p \<in> set parts"
    and pt: "case member_js p ''text'' of
               None \<Rightarrow> False
             | Some v \<Rightarrow> truthy (Some v) \<and> (case ToString v of Inl ex \<Rightarrow> False | Inr t \<Rightarrow> t \<noteq> [])"
    unfolding list_ex_iff by blast
  from pt obtain v t where t: "member_js p ''text'' = Some v" "truthy (Some v)" "ToString v = Inr t" "t \<noteq> []"
    by (rule text_fragmentD)
  let ?kept = "filter (\<lambda>p. truthy (member_js p ''text'')) parts"
  let ?show = "\<lambda>p. case member_js p ''text'' of None \<Rightarrow> Inr [] | Some v \<Rightarrow> (if v = JNull then Inr [] else ToString v)"
  have "\<exists>y. ?show q = Inr y" if "q \<in> set ?kept" for q
  proof (cases "member_js q ''text''")
    case None
    then show ?thesis by simp
  next
    case (Some w)
    from that ok have "printable w" using Some by (auto simp: list_all_iff)
    then show ?thesis using Some printableD[of w] by auto
  qed
  then obtain ss where ss: "collect (map ?show ?kept) = Inr ss"
    using collect_defined[of ?kept ?show] by blast
  have "p \<in> set ?kept" using p t by simp
  moreover have "?show p = Inr t" using t truthy_not_null[of v] by simp
  ultimately have "t \<in> set ss" using ss by (rule collect_member[rotated])
  then have "intercalate blank_line ss \<noteq> []" using t(4) by (rule intercalate_nonempty)
  moreover have "join blank_line (map (\<lambda>part. member_js part ''text'') ?kept) = Inr (intercalate blank_line ss)"
    using ss by (simp add: join_def comp_def)
  ultimately show ?thesis using c nn by (simp add: extractTextContent_def filter_parts_eq)
qed

lemma find_filter:
  "(\<And>x. P x \<Longrightarrow> Q x) \<Longrightarrow> find P (filter Q xs) = find P xs"
  by (induction xs) auto

lemma json_artifact_has_file: "is_json_artifact a \<Longrightarrow> truthy (member_js a ''file'')"
proof -
  assume a: "is_json_artifact a"
  show ?thesis
  proof (cases "member_js a ''file''")
    case None
    with a show ?thesis by (simp add: is_json_artifact_def opt_dot_def)
  next
    case (Some f)
    with a show ?thesis by (cases f) (simp_all add: is_json_artifact_def opt_dot_def)
  qed
qed

lemma find_artifacts:
  "find is_json_artifact (filter (\<lambda>p. truthy (member_js p ''file'')) parts) = find is_json_artifact parts"
  by (rule find_filter) (rule json_artifact_has_file)

lemma artifacts_by_parts:
  "content_parts data = Some parts \<Longrightarrow>
   artifacts_of data = Inr (Some (filter (\<lambda>p. truthy (member_js p ''file'')) parts))"
  using content_partsD[of data parts] by (simp add: artifacts_of_def filter_parts_eq)

lemma artifact_entries_found:
  assumes "content_parts data = Some parts" and "find is_json_artifact parts = Some a"
    and "announcement a = Inr text"
  shows "artifact_entries e k data
           = [\<lparr>id_msg = randomUUID e k, content = text, timestamp = newDate e k, type_msg = Final\<rparr>]"
  using assms(2,3) by (simp add: artifact_entries_def artifacts_by_parts[OF assms(1)] find_artifacts)

lemma announcement_named:
  "opt_dot (member_js a ''file'') ''filename'' = Some (JStr name) \<Longrightarrow> name \<noteq> [] \<Longrightarrow>
   announcement a = Inr (announcement_of name)"
  by (simp add: announcement_def artifact_name_def announcement_of_def or_else_def)

lemma text_entries_short: "length (text_entries e t data) \<le> 1"
  by (simp add: text_entries_def split: option.splits)

lemma artifacts_throw: "(\<exists>ex. artifacts_of data = Inl ex) = (\<not> processable data)"
proof (cases "content_of data")
  case (Inl ex)
  then show ?thesis by (simp add: artifacts_of_def processable_def)
next
  case (Inr v)
  show ?thesis
  proof (cases v)
    case None
    with Inr show ?thesis by (simp add: artifacts_of_def processable_def)
  next
    case (Some j)
    with Inr show ?thesis
      by (cases j) (simp_all add: artifacts_of_def processable_def filter_parts_eq)
  qed
qed

section \<open>What each handler changes\<close>

lemma parse_cases:
  obtains "JSON_parse d = None" | data where "d = Parsed data"
  by (cases d) simp_all

lemma status_update_unparsed: "JSON_parse d = None \<Longrightarrow> on_status_update e d s = s"
  by (simp add: on_status_update_def)

lemma final_response_unparsed: "JSON_parse d = None \<Longrightarrow> on_final_response e d s = s"
  by (simp add: on_final_response_def)

lemma error_event_unparsed: "JSON_parse d = None \<Longrightarrow> on_error_event e d s = s"
  by (simp add: on_error_event_def)

lemma status_update_messages:
  "on_status_update e (Parsed data) s = s\<lparr>messages := messages s @ text_entries e Status data\<rparr>"
  by (simp add: on_status_update_def text_entries_def setMessages_append_def split: option.splits)

lemma find_Nil_len:
  "(if length arts > 0 then (case find P arts of None \<Rightarrow> a | Some x \<Rightarrow> f x) else a)
     = (case find P arts of None \<Rightarrow> a | Some x \<Rightarrow> f x)"
  by (cases arts) auto

lemma announce_frame:
  "isComplete (announce e k artifacts s) = isComplete s"
  "isComplete_seen (announce e k artifacts s) = isComplete_seen s"
  "error (announce e k artifacts s) = error s"
  "eventSource (announce e k artifacts s) = eventSource s"
  unfolding announce_def find_Nil_len
  by (simp_all add: setMessages_with_def split: option.splits sum.splits)

lemma announce_messages:
  "messages (announce e k artifacts s)
     = messages s @ (case artifacts of
                       None \<Rightarrow> []
                     | Some arts \<Rightarrow>
                         (case find is_json_artifact arts of
                            None \<Rightarrow> []
                          | Some a \<Rightarrow>
                              (case announcement a of
                                 Inl ex \<Rightarrow> []
                               | Inr text \<Rightarrow>
                                   [\<lparr>id_msg = randomUUID e k, content = text, timestamp = newDate e k,
                                     type_msg = Final\<rparr>])))"
  unfolding announce_def find_Nil_len
  by (simp add: setMessages_with_def split: option.splits sum.splits)

lemma final_response_unfold:
  "on_final_response e (Parsed data) s =
     (let s1 = s\<lparr>messages := messages s @ text_entries e Final data\<rparr>
      in case artifacts_of data of
           Inl ex \<Rightarrow> s1
         | Inr artifacts \<Rightarrow>
             (announce e (length (text_entries e Final data)) artifacts s1)\<lparr>isComplete := True\<rparr>)"
proof (cases "truthy_content (extractTextContent data)")
  case True
  then obtain c where c: "extractTextContent data = Some c" "c \<noteq> []"
    by (cases "extractTextContent data") simp_all
  then have te: "text_entries e Final data
                   = [\<lparr>id_msg = randomUUID e 0, content = c, timestamp = newDate e 0, type_msg = Final\<rparr>]"
    by (simp add: text_entries_def)
  show ?thesis unfolding te using c
    by (simp add: on_final_response_def setMessages_append_def Let_def cong: sum.case_cong)
next
  case False
  then have te: "text_entries e Final data = []"
    by (cases "extractTextContent data") (simp_all add: text_entries_def)
  show ?thesis unfolding te using False
    by (simp add: on_final_response_def Let_def cong: sum.case_cong)
qed

lemma final_response_messages:
  "messages (on_final_response e (Parsed data) s) =
     messages s @ text_entries e Final data @ artifact_entries e (length (text_entries e Final data)) data"
proof (cases "artifacts_of data")
  case (Inl ex)
  then show ?thesis by (simp add: final_response_unfold artifact_entries_def)
next
  case (Inr artifacts)
  then show ?thesis
    by (simp add: final_response_unfold announce_messages artifact_entries_def split: option.splits)
qed

lemma final_response_flag:
  "isComplete (on_final_response e (Parsed data) s) = (isComplete s \<or> processable data)"
proof (cases "artifacts_of data")
  case (Inl ex)
  with artifacts_throw[of data] have "\<not> processable data" by auto
  with Inl show ?thesis by (simp add: final_response_unfold)
next
  case (Inr arts)
  with artifacts_throw[of data] have "processable data" by auto
  with Inr show ?thesis by (simp add: final_response_unfold)
qed

lemma status_update_frame:
  "isComplete (on_status_update e d s) = isComplete s"
  "isComplete_seen (on_status_update e d s) = isComplete_seen s"
  "error (on_status_update e d s) = error s"
  "eventSource (on_status_update e d s) = eventSource s"
  by (cases d rule: parse_cases; simp add: status_update_unparsed status_update_messages)+

lemma final_response_frame:
  "isComplete_seen (on_final_response e d s) = isComplete_seen s"
  "error (on_final_response e d s) = error s"
  "eventSource (on_final_response e d s) = eventSource s"
proof -
  have "isComplete_seen (on_final_response e d s) = isComplete_seen s
        \<and> error (on_final_response e d s) = error s
        \<and> eventSource (on_final_response e d s) = eventSource s"
  proof (cases d rule: parse_cases)
    case 1
    then show ?thesis by (simp add: final_response_unparsed)
  next
    case (2 data)
    then show ?thesis
      by (cases "artifacts_of data") (simp_all add: final_response_unfold announce_frame)
  qed
  then show "isComplete_seen (on_final_response e d s) = isComplete_seen s"
    and "error (on_final_response e d s) = error s"
    and "eventSource (on_final_response e d s) = eventSource s" by simp_all
qed

lemma error_event_frame:
  "isComplete (on_error_event e d s) = isComplete s"
  "isComplete_seen (on_error_event e d s) = isComplete_seen s"
  "eventSource (on_error_event e d s) = eventSource s"
  by (auto simp: on_error_event_def setMessages_with_def Let_def split: option.splits sum.splits)

lemma error_event_messages:
  "\<exists>new. messages (on_error_event e d s) = messages s @ new"
  by (auto simp: on_error_event_def setMessages_with_def Let_def split: option.splits sum.splits)

lemma error_event_no_data: "on_error_event e NoData s = s"
  by (simp add: on_error_event_def)

lemma onerror_frame:
  "isComplete (onerror s) = isComplete s"
  "isComplete_seen (onerror s) = isComplete_seen s"
  "messages (onerror s) = messages s"
  by (simp_all add: onerror_def Let_def)

lemma dispatch_error_frame:
  "isComplete (dispatch_error e d s) = isComplete s"
  "isComplete_seen (dispatch_error e d s) = isComplete_seen s"
  "messages (dispatch_error e d s) = messages (on_error_event e d s)"
  by (simp_all add: dispatch_error_def onerror_frame error_event_frame)

lemma rerender_frame:
  "isComplete (rerender t s) = isComplete s"
  "messages (rerender t s) = messages s"
  by (simp_all add: rerender_def effect_def cleanup_def)

section \<open>Invariants of runs\<close>

lemma run_append: "run (xs @ ys) s = run ys (run xs s)"
  by (induction xs arbitrary: s) auto

lemma step_keeps_flag: "isComplete s \<Longrightarrow> isComplete (step e ev s)"
proof (cases ev)
  case (FinalResponse d)
  assume "isComplete s"
  then show ?thesis using FinalResponse
    by (cases d rule: parse_cases) (simp_all add: final_response_unparsed final_response_flag)
qed (simp_all add: status_update_frame dispatch_error_frame rerender_frame)

lemma run_keeps_flag: "isComplete s \<Longrightarrow> isComplete (run evs s)"
proof (induction evs arbitrary: s)
  case Nil
  then show ?case by simp
next
  case (Cons x evs)
  obtain e ev where "x = (e, ev)" by (cases x)
  with Cons show ?case by (simp add: step_keeps_flag)
qed

lemma step_flag_consistent: "flag_consistent s \<Longrightarrow> flag_consistent (step e ev s)"
proof (cases ev)
  case (FinalResponse d)
  assume "flag_consistent s"
  then show ?thesis using FinalResponse step_keeps_flag[of s e ev]
    by (auto simp: flag_consistent_def final_response_frame)
next
  case (TaskIdChanged t)
  assume "flag_consistent s"
  then show ?thesis using TaskIdChanged
    by (simp add: flag_consistent_def rerender_def effect_def cleanup_def)
qed (simp_all add: flag_consistent_def status_update_frame dispatch_error_frame)

lemma run_flag_consistent: "flag_consistent s \<Longrightarrow> flag_consistent (run evs s)"
proof (induction evs arbitrary: s)
  case Nil
  then show ?case by simp
next
  case (Cons x evs)
  obtain e ev where "x = (e, ev)" by (cases x)
  with Cons show ?case by (simp add: step_flag_consistent)
qed

lemma mount_flag_consistent: "flag_consistent (mount t)"
  by (simp add: flag_consistent_def mount_def effect_def)

lemma step_appends: "\<exists>new. messages (step e ev s) = messages s @ new"
proof (cases ev)
  case (StatusUpdate d)
  then show ?thesis
    by (cases d rule: parse_cases) (simp_all add: status_update_unparsed status_update_messages)
next
  case (FinalResponse d)
  then show ?thesis
    by (cases d rule: parse_cases) (simp_all add: final_response_unparsed final_response_messages)
next
  case (ErrorEvent d)
  then show ?thesis by (simp add: dispatch_error_frame error_event_messages)
next
  case TransportError
  then show ?thesis by (simp add: dispatch_error_frame error_event_no_data)
next
  case (TaskIdChanged t)
  then show ?thesis by (simp add: rerender_frame)
qed

lemma run_appends: "prefix (messages s) (messages (run evs s))"
proof (induction evs arbitrary: s)
  case Nil
  then show ?case by simp
next
  case (Cons x evs)
  obtain e ev where x: "x = (e, ev)" by (cases x)
  have "prefix (messages s) (messages (step e ev s))"
    using step_appends[of e ev s] by (auto simp: prefix_def)
  also have "prefix (messages (step e ev s)) (messages (run evs (step e ev s)))"
    by (rule Cons.IH)
  finally show ?case by (simp add: x)
qed

lemma status_step:
  "has_text_fragment data \<Longrightarrow>
   on_status_update e (Parsed data) s = s\<lparr>messages := messages s @ [status_entry (e, data)]\<rparr>"
  using extract_nonempty[of data]
  by (auto simp: status_update_messages text_entries_def status_entry_def)

lemma run_status_events:
  "\<forall>j \<in> set jobs. has_text_fragment (snd j) \<Longrightarrow>
   messages (run (status_events jobs) s) = messages s @ map status_entry jobs"
proof (induction jobs arbitrary: s)
  case Nil
  then show ?case by (simp add: status_events_def)
next
  case (Cons j jobs)
  obtain e data where j: "j = (e, data)" by (cases j)
  have "messages (run (status_events (j # jobs)) s)
        = messages (run (status_events jobs) (on_status_update e (Parsed data) s))"
    by (simp add: status_events_def j)
  also have "\<dots> = messages (on_status_update e (Parsed data) s) @ map status_entry jobs"
    using Cons by simp
  also have "\<dots> = messages s @ map status_entry (j # jobs)"
    using Cons.prems by (simp add: status_step j)
  finally show ?case .
qed

section \<open>The claims\<close>

subsection \<open>C1: the completion flag\<close>

text \<open>
  C1, as the code has it. The listener of \<open>final_response\<close> leaves the completion
  flag true exactly when it was true already, or the payload parses and the
  listener handles it without an exception (the payload is not \<open>null\<close>, and
  its content is absent, \<open>null\<close> or a list with no \<open>null\<close> entry), whether or
  not it holds any text or artifact. Once the flag is true it stays true
  through every further step of a run.
\<close>

theorem C1_completion_flag:
  "isComplete (on_final_response e d s)
     = (isComplete s \<or> (case JSON_parse d of None \<Rightarrow> False | Some data \<Rightarrow> processable data))
   \<and> (isComplete s \<longrightarrow> isComplete (run evs s))"
  by (cases d rule: parse_cases) (simp_all add: final_response_unparsed final_response_flag run_keeps_flag)

text \<open>
  C1 at a concrete input: the payload \<open>{}\<close> has neither text nor artifact and
  sets the flag, which the two following steps keep.
\<close>

theorem C1_completion_flag_witness:
  "isComplete (on_final_response sample_env (Parsed (JObj [])) (mount ''task-1''))
   \<and> isComplete (run [(sample_env, StatusUpdate Garbled), (sample_env, TransportError)]
        (on_final_response sample_env (Parsed (JObj [])) (mount ''task-1'')))"
proof -
  have p: "processable (JObj [])"
    by (simp add: processable_def content_of_def dot_def opt_dot_def)
  have a: "isComplete (on_final_response sample_env (Parsed (JObj [])) (mount ''task-1''))"
    using C1_completion_flag[of sample_env "Parsed (JObj [])" "mount ''task-1''" "[]"] p by simp
  with C1_completion_flag[of sample_env NoData
      "on_final_response sample_env (Parsed (JObj [])) (mount ''task-1'')"
      "[(sample_env, StatusUpdate Garbled), (sample_env, TransportError)]"]
  show ?thesis by blast
qed

text \<open>
  C1 as stated fails: a \<open>final_response\<close> event whose data does not parse, and
  one whose payload parses but has the string \<open>done\<close> where the content list
  should be (the call of \<open>filter\<close> throws), both leave the flag false.
\<close>

theorem C1_counterexample:
  "\<not> isComplete (on_final_response sample_env Garbled (mount ''task-1''))
   \<and> \<not> isComplete (on_final_response sample_env
          (Parsed (JObj [(''result'', JObj [(''status'', JObj [(''message'', JObj [(''content'', JStr ''done'')])])])]))
          (mount ''task-1''))"
  by (simp add: on_final_response_def mount_def effect_def extractTextContent_def artifacts_of_def
        content_of_def dot_def opt_dot_def)

subsection \<open>C2: a transport error after completion\<close>

text \<open>
  C2 at a concrete run. After the mount, a \<open>final_response\<close> with the text
  \<open>Done\<close> sets the completion flag; the transport error that follows still sets
  the error state to \<open>Connection to server lost\<close>, because the guard of
  \<open>onerror\<close> reads the \<open>isComplete\<close> of the render in which the effect ran.
\<close>

theorem C2_transport_error_after_completion:
  "isComplete (run [(sample_env, FinalResponse (Parsed (envelope [text_part ''Done''])))] (mount ''task-1''))
   \<and> error (run [(sample_env, FinalResponse (Parsed (envelope [text_part ''Done'']))), (sample_env, TransportError)]
        (mount ''task-1'')) = Some (JStr ''Connection to server lost'')"
proof -
  have "processable (envelope [text_part ''Done''])"
    by (simp add: processable_def content_of_envelope text_part_def)
  then have "isComplete (on_final_response sample_env (Parsed (envelope [text_part ''Done''])) (mount ''task-1''))"
    by (simp add: final_response_flag)
  moreover have "\<not> isComplete_seen (on_final_response sample_env (Parsed (envelope [text_part ''Done''])) (mount ''task-1''))"
    by (simp add: final_response_frame mount_def effect_def)
  ultimately show ?thesis by (simp add: dispatch_error_def error_event_no_data onerror_def)
qed

subsection \<open>C3: status updates\<close>

text \<open>
  C3, as the code has it. For every sequence of well-formed \<open>status_update\<close>
  events (the content is a list with no \<open>null\<close> entry, and every \<open>text\<close>
  converts to a string) each of whose content lists holds at least one entry
  with a non-empty text fragment (a truthy \<open>text\<close> whose string form is not
  empty), processing the sequence appends exactly one entry per event, the
  entries stand in the order of their events, and each has the kind \<open>status\<close>.
\<close>

theorem C3_status_updates_grow_transcript:
  assumes "\<forall>j \<in> set jobs. has_text_fragment (snd j)"
  shows "messages (run (status_events jobs) s) = messages s @ map status_entry jobs
         \<and> length (messages (run (status_events jobs) s)) = length (messages s) + length jobs
         \<and> (\<forall>m \<in> set (map status_entry jobs). type_msg m = Status)"
  using run_status_events[OF assms, of s] by (auto simp: status_entry_def)

text \<open>C3 at two events, the second with a file entry before its text.\<close>

theorem C3_status_updates_grow_transcript_witness:
  "has_text_fragment (envelope [text_part ''Searching''])
   \<and> has_text_fragment (envelope [file_part ''x.bin'' ''application/octet-stream'', text_part ''Auditing''])
   \<and> map content (messages (run (status_events [(sample_env, envelope [text_part ''Searching'']),
          (sample_env, envelope [file_part ''x.bin'' ''application/octet-stream'', text_part ''Auditing''])]) (mount ''task-1'')))
       = [''Searching'', ''Auditing'']
   \<and> map type_msg (messages (run (status_events [(sample_env, envelope [text_part ''Searching'']),
          (sample_env, envelope [file_part ''x.bin'' ''application/octet-stream'', text_part ''Auditing''])]) (mount ''task-1'')))
       = [Status, Status]"
proof -
  have h1: "has_text_fragment (envelope [text_part ''Searching''])"
    by (simp add: has_text_fragment_def content_of_envelope text_part_def printable_def)
  have h2: "has_text_fragment (envelope [file_part ''x.bin'' ''application/octet-stream'', text_part ''Auditing''])"
    by (simp add: has_text_fragment_def content_of_envelope text_part_def file_part_def printable_def)
  have h: "\<forall>j \<in> set [(sample_env, envelope [text_part ''Searching'']),
          (sample_env, envelope [file_part ''x.bin'' ''application/octet-stream'', text_part ''Auditing''])]. has_text_fragment (snd j)"
    using h1 h2 by simp
  have c1: "extractTextContent (envelope [text_part ''Searching'']) = Some ''Searching''"
    by (simp add: extractTextContent_def content_of_envelope text_part_def dot_def join_def)
  have c2: "extractTextContent (envelope [file_part ''x.bin'' ''application/octet-stream'', text_part ''Auditing'']) = Some ''Auditing''"
    by (simp add: extractTextContent_def content_of_envelope text_part_def file_part_def dot_def join_def)
  from C3_status_updates_grow_transcript[OF h, of "mount ''task-1''"] h1 h2 c1 c2
  show ?thesis by (simp add: status_entry_def mount_def effect_def)
qed

text \<open>
  C3 as stated fails: the content list \<open>[{text: ""}]\<close> is a list of one
  well-formed entry on which the \<open>text\<close> field is present, and the event
  leaves the transcript empty.
\<close>

theorem C3_counterexample:
  "content_parts (envelope [text_part []]) = Some [text_part []]
   \<and> text_field_present (text_part [])
   \<and> messages (run (status_events [(sample_env, envelope [text_part []])]) (mount ''task-1'')) = []"
  by (simp add: content_parts_def content_of_envelope text_part_def text_field_present_def
        status_events_def on_status_update_def extractTextContent_def dot_def join_def
        mount_def effect_def)

subsection \<open>C4: text extraction\<close>

text \<open>
  C4, as the code has it. For every payload, the extracted text is defined
  exactly when the content is a list with no \<open>null\<close> entry and the join does
  not throw, and it is then the \<open>text\<close> values of the entries whose \<open>text\<close>
  is truthy (present, and not the empty string, zero, \<open>false\<close> or \<open>null\<close>),
  joined with a blank line; the other entries contribute nothing. The listener
  of \<open>status_update\<close> appends exactly one entry holding that text when it is
  defined and not empty, and nothing otherwise. The listener of
  \<open>final_response\<close> appends one entry holding it under the same condition and
  none otherwise, followed only by the announcement of an artifact if there is
  one.
\<close>

theorem C4_text_extraction:
  "extractTextContent data
     = (case content_parts data of
          None \<Rightarrow> None
        | Some parts \<Rightarrow>
            (case join blank_line (map text_of (filter has_truthy_text parts)) of
               Inl ex \<Rightarrow> None
             | Inr joined \<Rightarrow> Some joined))
   \<and> messages (on_status_update e (Parsed data) s)
       = messages s
         @ (case extractTextContent data of
              None \<Rightarrow> []
            | Some c \<Rightarrow>
                (if c = [] then []
                 else [\<lparr>id_msg = randomUUID e 0, content = c, timestamp = newDate e 0, type_msg = Status\<rparr>]))
   \<and> messages (on_final_response e (Parsed data) s)
       = messages s
         @ (case extractTextContent data of
              None \<Rightarrow> []
            | Some c \<Rightarrow>
                (if c = [] then []
                 else [\<lparr>id_msg = randomUUID e 0, content = c, timestamp = newDate e 0, type_msg = Final\<rparr>]))
         @ artifact_entries e (if truthy_content (extractTextContent data) then 1 else 0) data"
proof -
  have t: "text_entries e t data
             = (case extractTextContent data of
                  None \<Rightarrow> []
                | Some c \<Rightarrow>
                    (if c = [] then []
                     else [\<lparr>id_msg = randomUUID e 0, content = c, timestamp = newDate e 0, type_msg = t\<rparr>]))" for t
    by (simp add: text_entries_def split: option.splits)
  have k: "length (text_entries e Final data) = (if truthy_content (extractTextContent data) then 1 else 0)"
    by (cases "extractTextContent data") (simp_all add: text_entries_def)
  have "messages (on_status_update e (Parsed data) s) = messages s @ text_entries e Status data"
    by (simp add: status_update_messages)
  moreover have "messages (on_final_response e (Parsed data) s)
                   = messages s @ text_entries e Final data
                       @ artifact_entries e (if truthy_content (extractTextContent data) then 1 else 0) data"
    by (simp only: final_response_messages k)
  ultimately show ?thesis using extract_by_parts[of data] by (simp only: t)
qed

text \<open>
  C4 at a payload with two texts, a file entry and an empty text between them,
  and at a payload without text.
\<close>

theorem C4_text_extraction_witness:
  "extractTextContent (envelope [text_part ''a'', file_part ''leads.bin'' ''application/octet-stream'', text_part [], text_part ''b''])
     = Some (''a'' @ blank_line @ ''b'')
   \<and> map content (messages (on_status_update sample_env
        (Parsed (envelope [text_part ''a'', file_part ''leads.bin'' ''application/octet-stream'', text_part [], text_part ''b'']))
        (mount ''task-1''))) = [''a'' @ blank_line @ ''b'']
   \<and> messages (on_status_update sample_env (Parsed (envelope [])) (mount ''task-1'')) = []"
proof -
  let ?ps = "[text_part ''a'', file_part ''leads.bin'' ''application/octet-stream'', text_part [], text_part ''b'']"
  have cp: "content_parts (envelope ?ps) = Some ?ps"
    by (simp add: content_parts_def content_of_envelope text_part_def file_part_def)
  have j: "join blank_line (map text_of (filter has_truthy_text ?ps)) = Inr (''a'' @ blank_line @ ''b'')"
    by (simp add: has_truthy_text_def text_of_def text_part_def file_part_def join_def)
  have x: "extractTextContent (envelope ?ps) = Some (''a'' @ blank_line @ ''b'')"
    using C4_text_extraction[of "envelope ?ps"] cp j by simp
  have cp0: "content_parts (envelope []) = Some []"
    by (simp add: content_parts_def content_of_envelope)
  have x0: "extractTextContent (envelope []) = Some []"
    using C4_text_extraction[of "envelope []"] cp0 by (simp add: join_def)
  from x C4_text_extraction[of "envelope ?ps" sample_env "mount ''task-1''"]
  have m: "map content (messages (on_status_update sample_env (Parsed (envelope ?ps)) (mount ''task-1'')))
             = [''a'' @ blank_line @ ''b'']"
    by (simp add: mount_def effect_def blank_line_def)
  from x0 C4_text_extraction[of "envelope []" sample_env "mount ''task-1''"]
  have m0: "messages (on_status_update sample_env (Parsed (envelope [])) (mount ''task-1'')) = []"
    by (simp add: mount_def effect_def)
  from x m m0 show ?thesis by simp
qed

text \<open>
  C4 as stated fails: on the content list \<open>[{text: "a"}, {text: ""}]\<close> both
  entries have a \<open>text\<close> field, so the claimed text is \<open>a\<close> followed by a blank
  line; the code leaves the empty text out and returns \<open>a\<close>.
\<close>

theorem C4_counterexample:
  "extractTextContent (envelope [text_part ''a'', text_part []]) = Some ''a''
   \<and> claimed_text [text_part ''a'', text_part []] = Inr (''a'' @ blank_line)
   \<and> ''a'' \<noteq> ''a'' @ blank_line"
  by (simp add: extractTextContent_def content_of_envelope text_part_def dot_def join_def
        claimed_text_def text_field_present_def text_of_def blank_line_def)

subsection \<open>C5: events that do not parse\<close>

text \<open>
  C5 at a concrete event. An event of type \<open>error\<close> whose data is not JSON
  arrives after the mount, when the error state is unset and the stream is
  open. Its listener returns the state as it was, but the same event is handed
  to \<open>onerror\<close>, which sets the error state to \<open>Connection to server lost\<close> and
  closes the stream.
\<close>

theorem C5_unparsable_error_event_closes_stream:
  "JSON_parse Garbled = None
   \<and> error (mount ''task-1'') = None
   \<and> eventSource (mount ''task-1'') = Open
   \<and> on_error_event sample_env Garbled (mount ''task-1'') = mount ''task-1''
   \<and> error (run [(sample_env, ErrorEvent Garbled)] (mount ''task-1'')) = Some (JStr ''Connection to server lost'')
   \<and> eventSource (run [(sample_env, ErrorEvent Garbled)] (mount ''task-1'')) = Closed"
  by (simp add: dispatch_error_def on_error_event_def onerror_def mount_def effect_def)

subsection \<open>C6: a transport error before completion\<close>

text \<open>
  C6. In every run from the mount in which a transport error is delivered while
  the completion flag is still false, the error state becomes the non-empty
  message \<open>Connection to server lost\<close> and the event source is closed.
\<close>

theorem C6_transport_error_before_completion:
  assumes "\<not> isComplete (run evs (mount taskId))"
  shows "error (run (evs @ [(e, TransportError)]) (mount taskId)) = Some (JStr ''Connection to server lost'')
         \<and> ''Connection to server lost'' \<noteq> []
         \<and> eventSource (run (evs @ [(e, TransportError)]) (mount taskId)) = Closed"
proof -
  have "flag_consistent (run evs (mount taskId))"
    by (rule run_flag_consistent) (rule mount_flag_consistent)
  with assms have "\<not> isComplete_seen (run evs (mount taskId))"
    by (simp add: flag_consistent_def)
  then show ?thesis by (simp add: run_append dispatch_error_def error_event_no_data onerror_def)
qed

text \<open>C6 at a run of one status update followed by the transport error.\<close>

theorem C6_transport_error_before_completion_witness:
  "\<not> isComplete (run [(sample_env, StatusUpdate (Parsed (envelope [text_part ''Searching''])))] (mount ''task-1''))
   \<and> error (run ([(sample_env, StatusUpdate (Parsed (envelope [text_part ''Searching''])))] @ [(sample_env, TransportError)])
        (mount ''task-1'')) = Some (JStr ''Connection to server lost'')
   \<and> eventSource (run ([(sample_env, StatusUpdate (Parsed (envelope [text_part ''Searching''])))] @ [(sample_env, TransportError)])
        (mount ''task-1'')) = Closed"
proof -
  have h: "\<not> isComplete (run [(sample_env, StatusUpdate (Parsed (envelope [text_part ''Searching''])))] (mount ''task-1''))"
    by (simp add: status_update_frame mount_def effect_def)
  from C6_transport_error_before_completion[OF h, of sample_env] h show ?thesis by blast
qed

subsection \<open>C7: the announcement of a JSON artifact\<close>

text \<open>
  C7, as the code has it. For every \<open>final_response\<close> payload whose content is
  a list with no \<open>null\<close> entry, and in which the first entry with
  \<open>file.mime_type\<close> equal to \<open>application/json\<close> has \<open>file.filename\<close> equal to
  \<open>leads.json\<close>, the listener appends, after the entry made from the text (if
  any, and at most one), exactly one announcement, whose content contains
  \<open>leads.json\<close>.
\<close>

theorem C7_first_json_artifact_announced:
  assumes "content_parts data = Some parts"
    and "find is_json_artifact parts = Some a"
    and "opt_dot (member_js a ''file'') ''filename'' = Some (JStr ''leads.json'')"
  shows "messages (on_final_response e (Parsed data) s)
           = messages s @ text_entries e Final data
               @ [\<lparr>id_msg = randomUUID e (length (text_entries e Final data)),
                   content = announcement_of ''leads.json'',
                   timestamp = newDate e (length (text_entries e Final data)), type_msg = Final\<rparr>]
         \<and> length (text_entries e Final data) \<le> 1
         \<and> sublist ''leads.json'' (announcement_of ''leads.json'')"
proof -
  have "announcement a = Inr (announcement_of ''leads.json'')"
    using assms(3) by (simp add: announcement_named)
  moreover have "sublist ''leads.json'' (announcement_of ''leads.json'')"
    unfolding announcement_of_def
    using sublist_appendI[of "''leads.json''" "check_mark @ '' Lead generation complete! Generated ''" "''.''"]
    by simp
  ultimately show ?thesis
    using text_entries_short[of e Final data]
    by (simp add: final_response_messages artifact_entries_found[OF assms(1,2)])
qed

text \<open>
  C7 at a payload with a text, a plain-text file and \<open>leads.json\<close>: the
  transcript gains the text and the announcement of \<open>leads.json\<close>.
\<close>

theorem C7_first_json_artifact_announced_witness:
  "content_parts (envelope [text_part ''Done'', file_part ''notes.txt'' ''text/plain'', file_part ''leads.json'' ''application/json''])
     = Some [text_part ''Done'', file_part ''notes.txt'' ''text/plain'', file_part ''leads.json'' ''application/json'']
   \<and> find is_json_artifact [text_part ''Done'', file_part ''notes.txt'' ''text/plain'', file_part ''leads.json'' ''application/json'']
     = Some (file_part ''leads.json'' ''application/json'')
   \<and> map content (messages (on_final_response sample_env
        (Parsed (envelope [text_part ''Done'', file_part ''notes.txt'' ''text/plain'', file_part ''leads.json'' ''application/json'']))
        (mount ''task-1''))) = [''Done'', announcement_of ''leads.json'']"
proof -
  let ?ps = "[text_part ''Done'', file_part ''notes.txt'' ''text/plain'', file_part ''leads.json'' ''application/json'']"
  have cp: "content_parts (envelope ?ps) = Some ?ps"
    by (simp add: content_parts_def content_of_envelope file_part_def text_part_def)
  have f: "find is_json_artifact ?ps = Some (file_part ''leads.json'' ''application/json'')"
    by (simp add: is_json_artifact_def file_part_def text_part_def opt_dot_def)
  have n: "opt_dot (member_js (file_part ''leads.json'' ''application/json'') ''file'') ''filename'' = Some (JStr ''leads.json'')"
    by (simp add: file_part_def opt_dot_def)
  have j: "join blank_line (map text_of (filter has_truthy_text ?ps)) = Inr ''Done''"
    by (simp add: has_truthy_text_def text_of_def file_part_def text_part_def join_def)
  have t: "text_entries sample_env Final (envelope ?ps)
             = [\<lparr>id_msg = randomUUID sample_env 0, content = ''Done'', timestamp = newDate sample_env 0, type_msg = Final\<rparr>]"
    using j by (simp add: text_entries_def extract_by_parts cp)
  from C7_first_json_artifact_announced[OF cp f n, of sample_env "mount ''task-1''"] cp f t
  show ?thesis by (simp add: mount_def effect_def)
qed

text \<open>
  C7 as stated fails: the content list \<open>a.json\<close>, \<open>leads.json\<close> (both of type
  \<open>application/json\<close>) contains one entry with the type and the name that the
  claim asks for, yet the only entry appended announces \<open>a.json\<close>, and its
  content does not contain \<open>leads.json\<close>.
\<close>

theorem C7_counterexample:
  "map content (messages (on_final_response sample_env
      (Parsed (envelope [file_part ''a.json'' ''application/json'', file_part ''leads.json'' ''application/json'']))
      (mount ''task-1''))) = [announcement_of ''a.json'']
   \<and> \<not> sublist ''leads.json'' (announcement_of ''a.json'')"
proof -
  let ?ps = "[file_part ''a.json'' ''application/json'', file_part ''leads.json'' ''application/json'']"
  have cp: "content_parts (envelope ?ps) = Some ?ps"
    by (simp add: content_parts_def content_of_envelope file_part_def)
  have f: "find is_json_artifact ?ps = Some (file_part ''a.json'' ''application/json'')"
    by (simp add: is_json_artifact_def file_part_def opt_dot_def)
  have j: "join blank_line (map text_of (filter has_truthy_text ?ps)) = Inr []"
    by (simp add: has_truthy_text_def file_part_def join_def)
  have t: "text_entries sample_env Final (envelope ?ps) = []"
    using j by (simp add: text_entries_def extract_by_parts cp)
  have a: "announcement (file_part ''a.json'' ''application/json'') = Inr (announcement_of ''a.json'')"
    by (rule announcement_named) (simp_all add: file_part_def opt_dot_def)
  have m: "map content (messages (on_final_response sample_env (Parsed (envelope ?ps)) (mount ''task-1'')))
             = [announcement_of ''a.json'']"
    by (simp add: final_response_messages t artifact_entries_found[OF cp f a] mount_def effect_def)
  have n: "\<not> sublist ''leads.json'' (announcement_of ''a.json'')"
    unfolding announcement_of_def check_mark_def by code_simp
  from m n show ?thesis by simp
qed

subsection \<open>C8: the transcript is append-only\<close>

text \<open>
  C8. Every step of every handler leaves the message list as it was or extends
  it at the end, so the transcript after any part of a run is a prefix of the
  transcript after any longer part.
\<close>

theorem C8_transcript_append_only:
  "(\<exists>new. messages (step e ev s) = messages s @ new)
   \<and> prefix (messages (run evs1 s)) (messages (run (evs1 @ evs2) s))"
  by (simp add: step_appends run_append run_appends)

text \<open>C8 at a run of a status update, a gateway error and a transport error.\<close>

theorem C8_transcript_append_only_witness:
  "prefix (messages (run [(sample_env, StatusUpdate (Parsed (envelope [text_part ''Searching''])))] (mount ''task-1'')))
     (messages (run ([(sample_env, StatusUpdate (Parsed (envelope [text_part ''Searching''])))]
        @ [(sample_env, ErrorEvent (Parsed (JObj [(''error'', JStr ''boom'')]))), (sample_env, TransportError)]) (mount ''task-1'')))"
  using C8_transcript_append_only[of sample_env TransportError "mount ''task-1''"
      "[(sample_env, StatusUpdate (Parsed (envelope [text_part ''Searching''])))]"
      "[(sample_env, ErrorEvent (Parsed (JObj [(''error'', JStr ''boom'')]))), (sample_env, TransportError)]"]
  by blast

subsection \<open>C9: an error signalled by the gateway\<close>




subsection \<open>C10: an \<open>error\<close> event without data\<close>

text \<open>
  C10. For every \<open>error\<close> event whose data is absent or empty, the listener
  returns the state as it was: no error state, no transcript entry, and the
  event source is not closed.
\<close>

theorem C10_error_event_without_data:
  "on_error_event e NoData s = s"
  by (simp add: on_error_event_def)

text \<open>C10 after one status update.\<close>

theorem C10_error_event_without_data_witness:
  "on_error_event sample_env NoData (run [(sample_env, StatusUpdate (Parsed (envelope [text_part ''Searching''])))] (mount ''task-1''))
     = run [(sample_env, StatusUpdate (Parsed (envelope [text_part ''Searching''])))] (mount ''task-1'')"
  by (rule C10_error_event_without_data)

end
